theory Spec2Isabelle
  imports Complex_Main "HOL-Library.Word" "HOL-Library.Log_Nat"
begin

section \<open>Data model\<close>

text \<open>
  The operators work on 8-bit samples. A \<^verbatim>\<open>cv::Mat\<close> and a
  \<^verbatim>\<open>vector<vector<T>>\<close> are both modelled as a row-major list of rows; a
  \<^verbatim>\<open>cv::Vec3b\<close> and the inner three-element vector of AltSobel's RGB matrix are
  triples, whose components stand for index 0, 1 and 2.
\<close>

type_synonym u8 = "8 word"
type_synonym 'a Mat = "'a list list"
type_synonym Vec3b = "u8 \<times> u8 \<times> u8"

definition Mat_rows :: "'a Mat \<Rightarrow> nat" where
  "Mat_rows m = length m"

definition Mat_cols :: "'a Mat \<Rightarrow> nat" where
  "Mat_cols m = (case m of [] \<Rightarrow> 0 | r # _ \<Rightarrow> length r)"

definition Mat_empty :: "'a Mat \<Rightarrow> bool" where
  "Mat_empty m = (Mat_rows m = 0 \<or> Mat_cols m = 0)"

definition Mat_at :: "'a Mat \<Rightarrow> nat \<Rightarrow> nat \<Rightarrow> 'a" where
  "Mat_at m i j = m ! i ! j"

text \<open>A matrix is rectangular when every row has the width of the matrix.\<close>

definition rectangular :: "nat \<Rightarrow> nat \<Rightarrow> 'a Mat \<Rightarrow> bool" where
  "rectangular h w m = (length m = h \<and> list_all (\<lambda>r. length r = w) m)"

text \<open>\<^verbatim>\<open>vector<vector<T>>(h, vector<T>(w, v))\<close> and \<^verbatim>\<open>Mat(h, w, type, Scalar(v))\<close>.\<close>

definition new_Mat :: "nat \<Rightarrow> nat \<Rightarrow> 'a \<Rightarrow> 'a Mat" where
  "new_Mat h w v = replicate h (replicate w v)"

text \<open>
  Every stage of both pipelines is a pair of nested counting loops
  \<^verbatim>\<open>for (i = i0; i < i1; ++i) for (j = j0; j < j1; ++j) out[i][j] = body(i, j);\<close>
  whose body reads only the arrays of the previous stage. \<open>for2\<close> is that loop, run
  in index order on the output array passed in. The \<^verbatim>\<open>#pragma omp parallel for\<close>
  of OmpSobel hands the iterations of the outer loop to several threads; iteration \<open>i\<close>
  writes row \<open>i\<close> only and reads nothing that the loop writes, so the model runs them in
  index order as well. Where the source leaves the output array uninitialised, every cell
  is written by the loop, and the model starts from zeros.
\<close>

definition for2 :: "nat \<Rightarrow> nat \<Rightarrow> nat \<Rightarrow> nat \<Rightarrow> (nat \<Rightarrow> nat \<Rightarrow> 'a) \<Rightarrow> 'a Mat \<Rightarrow> 'a Mat" where
  "for2 i0 i1 j0 j1 body out =
     fold (\<lambda>i out. fold (\<lambda>j out. out[i := (out ! i)[j := body i j]]) [j0..<j1] out)
       [i0..<i1] out"

text \<open>
  The same loop with the outer iterations taken in the order \<open>order\<close>, as a schedule of
  the parallel loop may run them; lemma \<open>for2_any_schedule\<close> shows that the order does
  not matter.
\<close>

definition for2_scheduled ::
  "nat list \<Rightarrow> nat \<Rightarrow> nat \<Rightarrow> (nat \<Rightarrow> nat \<Rightarrow> 'a) \<Rightarrow> 'a Mat \<Rightarrow> 'a Mat" where
  "for2_scheduled order j0 j1 body out =
     fold (\<lambda>i out. fold (\<lambda>j out. out[i := (out ! i)[j := body i j]]) [j0..<j1] out)
       order out"

section \<open>Machine arithmetic\<close>

text \<open>
  A \<^verbatim>\<open>double\<close> is modelled by the rational number it denotes, and an operation on
  doubles by the exact operation followed by rounding to the nearest number with a 53-bit
  significand, ties to even (IEEE 754 binary64, every operation rounded on its own, the
  exponent range taken as unbounded: the values of the pipeline lie between 0.114 and a
  few thousand).
\<close>

definition rne :: "rat \<Rightarrow> int" where
  "rne x = (let f = \<lfloor>x\<rfloor>; r = x - of_int f in
            if r < 1 / 2 then f else if 1 / 2 < r then f + 1
            else if even f then f else f + 1)"

text \<open>The exponent \<open>e\<close> with \<open>2^e \<le> |x| < 2^(e+1)\<close>, for \<open>x \<noteq> 0\<close>.\<close>

definition binade :: "rat \<Rightarrow> int" where
  "binade x = (case quotient_of \<bar>x\<bar> of (p, q) \<Rightarrow>
     let e = bitlen p - bitlen q
     in if 2 powi e \<le> \<bar>x\<bar> then e else e - 1)"

definition fl :: "rat \<Rightarrow> rat" where
  "fl x = (if x = 0 then 0
           else let u = 2 powi (binade x - 52) in of_int (rne (x / u)) * u)"

definition fmul :: "rat \<Rightarrow> rat \<Rightarrow> rat" where
  "fmul a b = fl (a * b)"

definition fadd :: "rat \<Rightarrow> rat \<Rightarrow> rat" where
  "fadd a b = fl (a + b)"

text \<open>\<^verbatim>\<open>static_cast<int>\<close> and \<^verbatim>\<open>static_cast<uint8_t>\<close> of a double drop the fraction.\<close>

definition trunc_int :: "rat \<Rightarrow> int" where
  "trunc_int x = (if 0 \<le> x then \<lfloor>x\<rfloor> else \<lceil>x\<rceil>)"

text \<open>
  The target of \<^verbatim>\<open>static_cast<int>\<close> has 32 bits. For a double whose integer part does not
  fit, the language leaves the conversion undefined; the conversion instruction of x86-64
  gives the least \<^verbatim>\<open>int\<close> then, and so does the model.
\<close>

definition static_cast_int :: "rat \<Rightarrow> int" where
  "static_cast_int x =
     (let t = trunc_int x in if - (2 ^ 31) \<le> t \<and> t < 2 ^ 31 then t else - (2 ^ 31))"

text \<open>
  \<^verbatim>\<open>int\<close> is 32 bits wide. Where a product or a sum of arbitrary \<^verbatim>\<open>int\<close> values is
  formed, the two's complement wrap-around of the machine is written out.
\<close>

definition wrap32 :: "int \<Rightarrow> int" where
  "wrap32 x = (x + 2 ^ 31) mod 2 ^ 32 - 2 ^ 31"

text \<open>
  \<^verbatim>\<open>static_cast<int>(sqrt(s))\<close> for an \<^verbatim>\<open>int\<close> \<open>s \<ge> 0\<close>: the square root is
  correctly rounded, and below \<open>2^31\<close> the root of a number that is not a square stays
  more than \<open>2^-17\<close> under the next integer, so that dropping the fraction gives the
  integer square root. It is computed here digit by digit in base 2.
\<close>

fun floor_sqrt :: "int \<Rightarrow> int" where
  "floor_sqrt n =
     (if n \<le> 0 then 0
      else let r = 2 * floor_sqrt (n div 4)
           in if (r + 1) * (r + 1) \<le> n then r + 1 else r)"

declare floor_sqrt.simps [simp del]

section \<open>kernels\_util.h\<close>

definition sobelX :: "int Mat" where
  "sobelX = [[-1, 0, 1],
             [-2, 0, 2],
             [-1, 0, 1]]"

definition sobelY :: "int Mat" where
  "sobelY = [[-1, -2, -1],
             [ 0,  0,  0],
             [ 1,  2,  1]]"

text \<open>
  The rotation of a square matrix by 90 degrees, clockwise: the entry of row \<open>r\<close> and
  column \<open>c\<close> moves to row \<open>c\<close> and column \<open>n - 1 - r\<close>. The source has no such
  function; the definition follows the words of the specification, for the comparison of
  the two kernel tables.
\<close>

definition rotate90 :: "'a Mat \<Rightarrow> 'a Mat" where
  "rotate90 m = (let n = length m in
     map (\<lambda>i. map (\<lambda>j. m ! (n - 1 - j) ! i) [0..<n]) [0..<n])"

section \<open>image\_utils.cpp\<close>

datatype error = RuntimeError string

text \<open>
  \<^verbatim>\<open>cv::imread\<close> belongs to OpenCV; it is a parameter \<open>imread\<close> that gives the decoded
  BGR image of a path, the empty matrix when the path cannot be decoded.
\<close>

definition getImage :: "(string \<Rightarrow> Vec3b Mat) \<Rightarrow> string \<Rightarrow> error + Vec3b Mat" where
  "getImage imread inputPath =
     (let img = imread inputPath in
      if Mat_empty img then Inl (RuntimeError (''Could not read the image: '' @ inputPath))
      else Inr img)"

text \<open>The files written so far, by name.\<close>

type_synonym disk = "string \<rightharpoonup> u8 Mat"

definition writeImage :: "u8 Mat \<Rightarrow> string \<Rightarrow> disk \<Rightarrow> disk" where
  "writeImage img outputName d = d(outputName \<mapsto> img)"

section \<open>alt\_sobel.cpp and omp\_sobel.cpp\<close>

text \<open>AltSobel and OmpSobel declare the same five fields.\<close>

record sobel =
  ksize :: int
  scale :: rat
  delta :: rat
  height :: nat
  width :: nat

definition AltSobel :: "int \<Rightarrow> sobel" where
  "AltSobel kernelSize =
     \<lparr>ksize = kernelSize, scale = 1, delta = 0, height = 0, width = 0\<rparr>"

definition OmpSobel :: "int \<Rightarrow> sobel" where
  "OmpSobel kernelSize =
     \<lparr>ksize = kernelSize, scale = 1, delta = 0, height = 0, width = 0\<rparr>"

text \<open>
  The fields \<^verbatim>\<open>scale\<close> and \<^verbatim>\<open>delta\<close> are doubles; \<^verbatim>\<open>height\<close> and \<^verbatim>\<open>width\<close> hold the
  rows and columns of a matrix and are never negative.

  The weighted sum of the grayscale stage is added up from left to right, as the source
  writes it; the literals 0.299, 0.587 and 0.114 are the doubles nearest to them, and a
  sample converts to a double exactly. The sum lies between 0 and 256, so that the
  conversion to 8 bits keeps its integer part (lemma \<open>weighted_no_wrap\<close>).
\<close>

definition weighted :: "u8 \<Rightarrow> u8 \<Rightarrow> u8 \<Rightarrow> u8" where
  "weighted a b c = word_of_int (trunc_int
     (fadd (fadd (fmul (fl (299 / 1000)) (of_int (uint a)))
                 (fmul (fl (587 / 1000)) (of_int (uint b))))
           (fmul (fl (114 / 1000)) (of_int (uint c)))))"

definition AltSobel_convertToRGB :: "sobel \<Rightarrow> Vec3b Mat \<Rightarrow> Vec3b Mat" where
  "AltSobel_convertToRGB self input =
     for2 0 (height self) 0 (width self)
       (\<lambda>i j. case Mat_at input i j of (p0, p1, p2) \<Rightarrow> (p2, p1, p0))
       (new_Mat (height self) (width self) (0, 0, 0))"

definition AltSobel_convertToGrayscale :: "sobel \<Rightarrow> Vec3b Mat \<Rightarrow> u8 Mat" where
  "AltSobel_convertToGrayscale self rgbMatrix =
     for2 0 (height self) 0 (width self)
       (\<lambda>i j. case Mat_at rgbMatrix i j of (p0, p1, p2) \<Rightarrow> weighted p0 p1 p2)
       (new_Mat (height self) (width self) 0)"

definition OmpSobel_convertToRGB :: "sobel \<Rightarrow> Vec3b Mat \<Rightarrow> Vec3b Mat" where
  "OmpSobel_convertToRGB self input =
     for2 0 (height self) 0 (width self)
       (\<lambda>i j. case Mat_at input i j of (p0, p1, p2) \<Rightarrow> (p2, p1, p0))
       (new_Mat (height self) (width self) (0, 0, 0))"

definition OmpSobel_convertToGrayscale :: "sobel \<Rightarrow> Vec3b Mat \<Rightarrow> u8 Mat" where
  "OmpSobel_convertToGrayscale self rgbImage =
     for2 0 (height self) 0 (width self)
       (\<lambda>i j. case Mat_at rgbImage i j of (p0, p1, p2) \<Rightarrow> weighted p2 p1 p0)
       (new_Mat (height self) (width self) 0)"

text \<open>
  The two innermost loops of the gradient functions: \<^verbatim>\<open>gradient\<close> starts at 0 and
  takes up \<^verbatim>\<open>kernel[ki][kj] * grayImage[i + ki - offset][j + kj - offset]\<close> for
  \<open>ki\<close> and \<open>kj\<close> below the kernel size.
\<close>

definition kernelSum :: "int Mat \<Rightarrow> nat \<Rightarrow> u8 Mat \<Rightarrow> nat \<Rightarrow> nat \<Rightarrow> int" where
  "kernelSum kern offset grayImage i j =
     fold (\<lambda>ki gradient.
        fold (\<lambda>kj gradient.
           gradient + Mat_at kern ki kj
                      * uint (Mat_at grayImage (i + ki - offset) (j + kj - offset)))
          [0..<length kern] gradient)
       [0..<length kern] 0"

text \<open>
  The four gradient functions (X and Y, of AltSobel and of OmpSobel) have one body and
  differ in the kernel table they name; \<open>computeGradient\<close> is that body with the table
  as a parameter. Where \<^verbatim>\<open>height - offset\<close> is negative in the source the loop is empty,
  as it is with the subtraction of \<open>nat\<close>, which stops at 0. With the two tables of the
  source and 8-bit samples each of the nine terms is at most 510 in absolute value, and
  no partial sum leaves the range of \<^verbatim>\<open>int\<close>.
\<close>

definition computeGradient :: "int Mat \<Rightarrow> sobel \<Rightarrow> u8 Mat \<Rightarrow> int Mat" where
  "computeGradient kern self grayImage =
     (let kernelSize = length kern; offset = kernelSize div 2 in
      for2 offset (height self - offset) offset (width self - offset)
        (\<lambda>i j. static_cast_int (fadd (fmul (scale self)
                                       (of_int (kernelSum kern offset grayImage i j)))
                                 (delta self)))
        (new_Mat (height self) (width self) 0))"

definition AltSobel_computeGradientX :: "sobel \<Rightarrow> u8 Mat \<Rightarrow> int Mat" where
  "AltSobel_computeGradientX self grayImage = computeGradient sobelX self grayImage"

definition AltSobel_computeGradientY :: "sobel \<Rightarrow> u8 Mat \<Rightarrow> int Mat" where
  "AltSobel_computeGradientY self grayImage = computeGradient sobelY self grayImage"

definition OmpSobel_computeGradientX :: "sobel \<Rightarrow> u8 Mat \<Rightarrow> int Mat" where
  "OmpSobel_computeGradientX self grayImage = computeGradient sobelX self grayImage"

definition OmpSobel_computeGradientY :: "sobel \<Rightarrow> u8 Mat \<Rightarrow> int Mat" where
  "OmpSobel_computeGradientY self grayImage = computeGradient sobelY self grayImage"

text \<open>
  One cell of combineGradients. The squares and their sum are \<^verbatim>\<open>int\<close> arithmetic,
  which wraps around on the machine (the language leaves the overflow undefined). The
  square root of a negative sum is a NaN, which the conversion to \<^verbatim>\<open>int\<close> of x86-64
  turns into the least \<^verbatim>\<open>int\<close>; the cell is 0 then.
\<close>

definition combineCell :: "int \<Rightarrow> int \<Rightarrow> u8" where
  "combineCell gx gy =
     (let s = wrap32 (wrap32 (gx * gx) + wrap32 (gy * gy));
          magnitude = (if s < 0 then - (2 ^ 31) else floor_sqrt s)
      in word_of_int (min 255 magnitude))"

definition AltSobel_combineGradients :: "sobel \<Rightarrow> int Mat \<Rightarrow> int Mat \<Rightarrow> u8 Mat" where
  "AltSobel_combineGradients self gradX gradY =
     for2 0 (height self) 0 (width self)
       (\<lambda>i j. combineCell (Mat_at gradX i j) (Mat_at gradY i j))
       (new_Mat (height self) (width self) 0)"

definition OmpSobel_combineGradients :: "sobel \<Rightarrow> int Mat \<Rightarrow> int Mat \<Rightarrow> u8 Mat" where
  "OmpSobel_combineGradients self gradX gradY =
     for2 0 (height self) 0 (width self)
       (\<lambda>i j. combineCell (Mat_at gradX i j) (Mat_at gradY i j))
       (new_Mat (height self) (width self) 0)"

text \<open>
  getEdges returns the edge map or the error thrown, the object with the dimensions it
  has stored, and the disk. The time it prints is left out.
\<close>

definition AltSobel_getEdges ::
  "(string \<Rightarrow> Vec3b Mat) \<Rightarrow> sobel \<Rightarrow> string \<Rightarrow> string \<Rightarrow> disk
     \<Rightarrow> (error + u8 Mat) \<times> sobel \<times> disk" where
  "AltSobel_getEdges imread self inputPath outputName d =
     (case getImage imread inputPath of
        Inl e \<Rightarrow> (Inl e, self, d)
      | Inr img \<Rightarrow>
          let self = self\<lparr>height := Mat_rows img, width := Mat_cols img\<rparr>;
              rgbImage = AltSobel_convertToRGB self img;
              grayImage = AltSobel_convertToGrayscale self rgbImage;
              gradX = AltSobel_computeGradientX self grayImage;
              gradY = AltSobel_computeGradientY self grayImage;
              edges = AltSobel_combineGradients self gradX gradY
          in (Inr edges, self, writeImage edges outputName d))"

definition OmpSobel_getEdges ::
  "(string \<Rightarrow> Vec3b Mat) \<Rightarrow> sobel \<Rightarrow> string \<Rightarrow> string \<Rightarrow> disk
     \<Rightarrow> (error + u8 Mat) \<times> sobel \<times> disk" where
  "OmpSobel_getEdges imread self inputPath outputName d =
     (case getImage imread inputPath of
        Inl e \<Rightarrow> (Inl e, self, d)
      | Inr img \<Rightarrow>
          let self = self\<lparr>height := Mat_rows img, width := Mat_cols img\<rparr>;
              rgbImage = OmpSobel_convertToRGB self img;
              grayImage = OmpSobel_convertToGrayscale self rgbImage;
              gradX = OmpSobel_computeGradientX self grayImage;
              gradY = OmpSobel_computeGradientY self grayImage;
              edges = OmpSobel_combineGradients self gradX gradY
          in (Inr edges, self, writeImage edges outputName d))"

section \<open>Example inputs\<close>

text \<open>An object whose stored dimensions are \<open>h\<close> and \<open>w\<close>, as getEdges sets them.\<close>

definition sized :: "sobel \<Rightarrow> nat \<Rightarrow> nat \<Rightarrow> sobel" where
  "sized self h w = self\<lparr>height := h, width := w\<rparr>"

definition ramp :: "u8 Mat" where
  "ramp = [[1, 2, 3], [4, 5, 6], [7, 8, 9]]"

text \<open>
  Decoded images are in the channel order of OpenCV: blue, green, red. One pure red
  pixel, and a 3 by 3 image whose left column is pure red and whose other pixels are black.
\<close>

definition red_pixel :: "Vec3b Mat" where
  "red_pixel = [[(0, 0, 255)]]"

definition red_column :: "Vec3b Mat" where
  "red_column = [[(0, 0, 255), (0, 0, 0), (0, 0, 0)],
                 [(0, 0, 255), (0, 0, 0), (0, 0, 0)],
                 [(0, 0, 255), (0, 0, 0), (0, 0, 0)]]"

text \<open>An \<open>imread\<close> for which no path decodes.\<close>

definition no_image :: "string \<Rightarrow> Vec3b Mat" where
  "no_image p = []"

section \<open>The nested loops\<close>

lemma fold_row_update:
  "fold (\<lambda>j out. out[i := (out ! i)[j := f j]]) js out
     = (if i < length out then out[i := fold (\<lambda>j r. r[j := f j]) js (out ! i)] else out)"
  by (induction js arbitrary: out) (auto simp: list_update_beyond)

lemma fold_cells_length [simp]:
  "length (fold (\<lambda>j r. r[j := f j]) js r) = length r"
  by (induction js arbitrary: r) auto

lemma fold_cells_nth:
  "j < length r \<Longrightarrow>
   fold (\<lambda>j r. r[j := f j]) js r ! j = (if j \<in> set js then f j else r ! j)"
  by (induction js arbitrary: r) (auto simp: nth_list_update)

lemma fold_rows_length [simp]:
  "length (fold (\<lambda>i out. if i < length out then out[i := G i (out ! i)] else out) is out)
     = length out"
  by (induction "is" arbitrary: out) auto

lemma fold_rows_nth:
  "distinct is \<Longrightarrow> i < length out \<Longrightarrow>
   fold (\<lambda>i out. if i < length out then out[i := G i (out ! i)] else out) is out ! i
     = (if i \<in> set is then G i (out ! i) else out ! i)"
  by (induction "is" arbitrary: out) (auto simp: nth_list_update)

lemma for2_rows:
  "for2 i0 i1 j0 j1 body out =
     fold (\<lambda>i out. if i < length out
                    then out[i := fold (\<lambda>j r. r[j := body i j]) [j0..<j1] (out ! i)]
                    else out) [i0..<i1] out"
  by (simp add: for2_def fold_row_update)

lemma for2_any_schedule:
  assumes "distinct order" and "set order = {i0..<i1}"
  shows "for2_scheduled order j0 j1 body out = for2 i0 i1 j0 j1 body out"
proof -
  let ?G = "\<lambda>i. fold (\<lambda>j r. r[j := body i j]) [j0..<j1]"
  let ?step = "\<lambda>i out. if i < length out then out[i := ?G i (out ! i)] else out"
  have a: "for2_scheduled order j0 j1 body out = fold ?step order out"
    by (simp add: for2_scheduled_def fold_row_update)
  have b: "for2 i0 i1 j0 j1 body out = fold ?step [i0..<i1] out"
    by (rule for2_rows)
  have l1: "length (fold ?step order out) = length out"
    by (rule fold_rows_length [of ?G])
  have l2: "length (fold ?step [i0..<i1] out) = length out"
    by (rule fold_rows_length [of ?G])
  have "fold ?step order out = fold ?step [i0..<i1] out"
  proof (rule nth_equalityI)
    show "length (fold ?step order out) = length (fold ?step [i0..<i1] out)"
      by (simp only: l1 l2)
  next
    fix i
    assume "i < length (fold ?step order out)"
    then have i: "i < length out"
      by (simp only: l1)
    have "fold ?step order out ! i = (if i \<in> set order then ?G i (out ! i) else out ! i)"
      by (rule fold_rows_nth [of order i out ?G, OF assms(1) i])
    moreover have "fold ?step [i0..<i1] out ! i
        = (if i \<in> set [i0..<i1] then ?G i (out ! i) else out ! i)"
      by (rule fold_rows_nth [of "[i0..<i1]" i out ?G, OF distinct_upt i])
    ultimately show "fold ?step order out ! i = fold ?step [i0..<i1] out ! i"
      by (simp only: assms(2) set_upt)
  qed
  then show ?thesis
    by (simp only: a b)
qed

lemma for2_length [simp]: "length (for2 i0 i1 j0 j1 body out) = length out"
  unfolding for2_rows by (rule fold_rows_length)

lemma for2_row:
  "i < length out \<Longrightarrow>
   for2 i0 i1 j0 j1 body out ! i
     = (if i0 \<le> i \<and> i < i1 then fold (\<lambda>j r. r[j := body i j]) [j0..<j1] (out ! i)
        else out ! i)"
  unfolding for2_rows by (subst fold_rows_nth) auto

lemma for2_row_length [simp]:
  "i < length out \<Longrightarrow> length (for2 i0 i1 j0 j1 body out ! i) = length (out ! i)"
  by (simp add: for2_row)

lemma for2_nth:
  "i < length out \<Longrightarrow> j < length (out ! i) \<Longrightarrow>
   for2 i0 i1 j0 j1 body out ! i ! j
     = (if i0 \<le> i \<and> i < i1 \<and> j0 \<le> j \<and> j < j1 then body i j else out ! i ! j)"
  by (simp add: for2_row fold_cells_nth)

lemma new_Mat_nth [simp]: "i < h \<Longrightarrow> j < w \<Longrightarrow> new_Mat h w v ! i ! j = v"
  by (simp add: new_Mat_def)

lemma new_Mat_length [simp]: "length (new_Mat h w v) = h"
  by (simp add: new_Mat_def)

lemma new_Mat_row_length [simp]: "i < h \<Longrightarrow> length (new_Mat h w v ! i) = w"
  by (simp add: new_Mat_def)

lemma for2_new_Mat_nth:
  "i < h \<Longrightarrow> j < w \<Longrightarrow>
   for2 i0 i1 j0 j1 body (new_Mat h w v) ! i ! j
     = (if i0 \<le> i \<and> i < i1 \<and> j0 \<le> j \<and> j < j1 then body i j else v)"
  by (simp add: for2_nth)

lemma rectangular_for2_new_Mat: "rectangular h w (for2 i0 i1 j0 j1 body (new_Mat h w v))"
  by (simp add: rectangular_def list_all_length)

lemma Mat_eqI:
  "rectangular h w a \<Longrightarrow> rectangular h w b \<Longrightarrow>
   (\<And>i j. i < h \<Longrightarrow> j < w \<Longrightarrow> a ! i ! j = b ! i ! j) \<Longrightarrow> a = b"
  by (auto simp: rectangular_def list_all_length intro!: nth_equalityI)

section \<open>Arithmetic\<close>

lemma rne_of_int [simp]: "rne (of_int m) = m"
  by (simp add: rne_def)

lemma trunc_int_of_int [simp]: "trunc_int (of_int m) = m"
  by (simp add: trunc_int_def)

lemma bitlen_one: "bitlen 1 = 1"
  by (simp add: compute_bitlen)

lemma binade_of_int_le:
  assumes "\<bar>n\<bar> < 2 ^ 53"
  shows "binade (of_int n) \<le> 52"
proof -
  have "bitlen \<bar>n\<bar> \<le> 53"
    using assms by (simp add: bitlen_le_iff_power)
  moreover have "quotient_of \<bar>rat_of_int n\<bar> = (\<bar>n\<bar>, 1)"
    by (simp flip: of_int_abs)
  ultimately show ?thesis
    by (simp add: binade_def Let_def bitlen_one)
qed

lemma fl_of_int:
  assumes "\<bar>n\<bar> < 2 ^ 53"
  shows "fl (of_int n) = of_int n"
proof (cases "n = 0")
  case True
  then show ?thesis by (simp add: fl_def)
next
  case False
  define k where "k = nat (52 - binade (of_int n))"
  have "binade (of_int n) - 52 = - int k"
    using binade_of_int_le [OF assms] by (simp add: k_def)
  then have u: "(2::rat) powi (binade (of_int n) - 52) = 1 / 2 ^ k"
    by (simp add: power_int_minus divide_inverse)
  have "rat_of_int n / (1 / 2 ^ k) = of_int (n * 2 ^ k)"
    by simp
  then have "rne (rat_of_int n / (1 / 2 ^ k)) = n * 2 ^ k"
    by (simp only: rne_of_int)
  with False show ?thesis
    by (simp add: fl_def Let_def u)
qed

lemma fl_zero [simp]: "fl 0 = 0"
  by (simp add: fl_def)

lemma static_cast_int_in_range:
  "- (2 ^ 31) \<le> trunc_int x \<Longrightarrow> trunc_int x < 2 ^ 31 \<Longrightarrow> static_cast_int x = trunc_int x"
  by (simp add: static_cast_int_def)

lemma affine_whole_scale:
  assumes "\<bar>n * s\<bar> < 2 ^ 31"
  shows "static_cast_int (fadd (fmul (of_int n) (of_int s)) 0) = n * s"
proof -
  have "\<bar>n * s\<bar> < 2 ^ 53"
    using assms by simp
  then have f: "fl (of_int (n * s)) = of_int (n * s)"
    by (rule fl_of_int)
  have "fadd (fmul (of_int n) (of_int s)) 0 = fl (fl (of_int (n * s)))"
    by (simp add: fadd_def fmul_def)
  then have "fadd (fmul (of_int n) (of_int s)) 0 = of_int (n * s)"
    by (simp only: f)
  then have t: "trunc_int (fadd (fmul (of_int n) (of_int s)) 0) = n * s"
    by (simp only: trunc_int_of_int)
  have "- (2 ^ 31) \<le> n * s" "n * s < 2 ^ 31"
    using assms by linarith+
  then show ?thesis
    unfolding static_cast_int_def Let_def t by simp
qed

lemma affine_default:
  assumes "\<bar>s\<bar> < 2 ^ 31"
  shows "static_cast_int (fadd (fmul 1 (of_int s)) 0) = s"
  using affine_whole_scale [of 1 s] assms by simp

subsection \<open>The exponent\<close>

lemma bitlen_rat_bounds:
  assumes "0 < p"
  shows "(2::rat) powi (bitlen p - 1) \<le> of_int p" and "of_int p < (2::rat) powi bitlen p"
proof -
  from bitlen_bounds [OF assms]
  have lo: "2 ^ nat (bitlen p - 1) \<le> p" and hi: "p < 2 ^ nat (bitlen p)"
    by simp_all
  have pos: "1 \<le> bitlen p"
    using assms bitlen_eq_zero_iff [of p] bitlen_nonneg [of p] by linarith
  have "rat_of_int (2 ^ nat (bitlen p - 1)) \<le> of_int p"
    using lo by (simp only: of_int_le_iff)
  then show "(2::rat) powi (bitlen p - 1) \<le> of_int p"
    using pos by (simp add: power_int_def)
  have "rat_of_int p < of_int (2 ^ nat (bitlen p))"
    using hi by (simp only: of_int_less_iff)
  then show "of_int p < (2::rat) powi bitlen p"
    using pos by (simp add: power_int_def)
qed

lemma binade_bounds:
  assumes "x \<noteq> 0"
  shows "2 powi binade x \<le> \<bar>x\<bar>" and "\<bar>x\<bar> < 2 powi (binade x + 1)"
proof -
  obtain p q where pq: "quotient_of \<bar>x\<bar> = (p, q)"
    by force
  then have q: "0 < q"
    by (rule quotient_of_denom_pos)
  have x: "\<bar>x\<bar> = of_int p / of_int q"
    using pq by (rule quotient_of_div)
  have "0 < \<bar>x\<bar>"
    using assms by simp
  with x q have p: "0 < p"
    by (simp add: zero_less_divide_iff)
  define a where "a = bitlen p"
  define b where "b = bitlen q"
  have pa: "(2::rat) powi (a - 1) \<le> of_int p" "of_int p < (2::rat) powi a"
    using bitlen_rat_bounds [OF p] by (simp_all add: a_def)
  have qb: "(2::rat) powi (b - 1) \<le> of_int q" "of_int q < (2::rat) powi b"
    using bitlen_rat_bounds [OF q] by (simp_all add: b_def)
  have qpos: "(0::rat) < of_int q" and ppos: "(0::rat) < of_int p"
    using p q by simp_all
  have pw: "(0::rat) < 2 powi n" for n
    by simp
  have "\<bar>x\<bar> < 2 powi a / 2 powi (b - 1)"
    unfolding x using pa(2) qb(1) qpos ppos pw [of "b - 1"] pw [of a]
    by (intro frac_less) simp_all
  also have "\<dots> = 2 powi (a - b + 1)"
    by (simp add: power_int_diff power_int_add)
  finally have up: "\<bar>x\<bar> < 2 powi (a - b + 1)" .
  have "2 powi (a - 1) / 2 powi b < \<bar>x\<bar>"
    unfolding x using pa(1) qb(2) qpos ppos pw [of "a - 1"] pw [of b]
    by (intro frac_less2) simp_all
  moreover have "(2::rat) powi (a - 1) / 2 powi b = 2 powi (a - b - 1)"
    by (simp add: power_int_diff)
  ultimately have lo: "2 powi (a - b - 1) < \<bar>x\<bar>"
    by simp
  have bin: "binade x = (if 2 powi (a - b) \<le> \<bar>x\<bar> then a - b else a - b - 1)"
    by (simp add: binade_def pq a_def b_def Let_def)
  show "2 powi binade x \<le> \<bar>x\<bar>"
    using lo by (simp add: bin)
  show "\<bar>x\<bar> < 2 powi (binade x + 1)"
    using up by (auto simp: bin not_le)
qed

subsection \<open>Integers\<close>

lemma wrap32_id: "- (2 ^ 31) \<le> x \<Longrightarrow> x < 2 ^ 31 \<Longrightarrow> wrap32 x = x"
  by (simp add: wrap32_def)

lemma floor_sqrt_bounds:
  "0 \<le> n \<Longrightarrow>
   0 \<le> floor_sqrt n \<and> floor_sqrt n * floor_sqrt n \<le> n
     \<and> n < (floor_sqrt n + 1) * (floor_sqrt n + 1)"
proof (induction n rule: floor_sqrt.induct)
  case (1 n)
  show ?case
  proof (cases "n \<le> 0")
    case True
    with "1.prems" have "n = 0" by simp
    then show ?thesis by (simp add: floor_sqrt.simps [of 0])
  next
    case False
    define q where "q = floor_sqrt (n div 4)"
    define a where "a = q * q"
    have "0 \<le> n div 4" using "1.prems" by simp
    with "1.IH" [OF False] have ih: "0 \<le> q" "a \<le> n div 4" "n div 4 < (q + 1) * (q + 1)"
      by (simp_all add: q_def a_def)
    have s1: "(q + 1) * (q + 1) = a + 2 * q + 1"
      by (simp add: a_def algebra_simps)
    have s2: "(2 * q + 1) * (2 * q + 1) = 4 * a + 4 * q + 1"
      by (simp add: a_def algebra_simps)
    have s3: "(2 * q + 1 + 1) * (2 * q + 1 + 1) = 4 * a + 8 * q + 4"
      by (simp add: a_def algebra_simps)
    have s4: "2 * q * (2 * q) = 4 * a"
      by (simp add: a_def algebra_simps)
    have d: "4 * (n div 4) \<le> n \<and> n < 4 * (n div 4) + 4"
      by linarith
    have fs: "floor_sqrt n = (if (2 * q + 1) * (2 * q + 1) \<le> n then 2 * q + 1 else 2 * q)"
      using False by (simp add: floor_sqrt.simps [of n] Let_def q_def)
    show ?thesis
    proof (cases "(2 * q + 1) * (2 * q + 1) \<le> n")
      case True
      have "n < (2 * q + 1 + 1) * (2 * q + 1 + 1)"
        using ih d unfolding s1 s3 by linarith
      with True ih(1) show ?thesis
        unfolding fs by simp
    next
      case False
      have "2 * q * (2 * q) \<le> n"
        using ih d unfolding s4 by linarith
      with False ih(1) show ?thesis
        unfolding fs by simp
    qed
  qed
qed

lemma floor_sqrt_real:
  assumes "0 \<le> n"
  shows "floor_sqrt n = \<lfloor>sqrt (real_of_int n)\<rfloor>"
proof -
  define k where "k = floor_sqrt n"
  from floor_sqrt_bounds [OF assms]
  have b: "0 \<le> k" "k * k \<le> n" "n < (k + 1) * (k + 1)"
    by (simp_all add: k_def)
  have "real_of_int (k * k) \<le> real_of_int n"
    using b(2) by (simp only: of_int_le_iff)
  then have "(real_of_int k)\<^sup>2 \<le> real_of_int n"
    by (simp add: power2_eq_square)
  then have lo: "real_of_int k \<le> sqrt (real_of_int n)"
    by (rule real_le_rsqrt)
  have "real_of_int n < real_of_int ((k + 1) * (k + 1))"
    using b(3) by (simp only: of_int_less_iff)
  then have "real_of_int n < (real_of_int k + 1)\<^sup>2"
    by (simp add: power2_eq_square)
  moreover have "0 \<le> real_of_int k + 1"
    using b(1) by simp
  ultimately have hi: "sqrt (real_of_int n) < real_of_int k + 1"
    by (intro real_less_lsqrt)
  from lo hi have "\<lfloor>sqrt (real_of_int n)\<rfloor> = k"
    by (intro floor_unique)
  then show ?thesis
    by (simp add: k_def)
qed

lemma fold_add_sum:
  "fold (\<lambda>k a. a + f k) [0..<n] (a0::int) = a0 + (\<Sum>k<n. f k)"
  by (induction n) auto

lemma kernelSum_sum:
  "kernelSum kern offset grayImage i j =
     (\<Sum>ki<length kern. \<Sum>kj<length kern.
        kern ! ki ! kj * uint (grayImage ! (i + ki - offset) ! (j + kj - offset)))"
  by (simp add: kernelSum_def Mat_at_def fold_add_sum)

lemma upt_3: "[0..<3] = [0, 1, 2]"
  by (simp add: upt_rec)

lemma kernelSum_sobelX:
  "kernelSum sobelX 1 g i j =
     uint (g ! (i - 1) ! (j + 1)) - uint (g ! (i - 1) ! (j - 1))
     + 2 * uint (g ! i ! (j + 1)) - 2 * uint (g ! i ! (j - 1))
     + uint (g ! (i + 1) ! (j + 1)) - uint (g ! (i + 1) ! (j - 1))"
  by (simp add: kernelSum_def sobelX_def Mat_at_def upt_3)

lemma kernelSum_sobelY:
  "kernelSum sobelY 1 g i j =
     uint (g ! (i + 1) ! (j - 1)) - uint (g ! (i - 1) ! (j - 1))
     + 2 * uint (g ! (i + 1) ! j) - 2 * uint (g ! (i - 1) ! j)
     + uint (g ! (i + 1) ! (j + 1)) - uint (g ! (i - 1) ! (j + 1))"
  by (simp add: kernelSum_def sobelY_def Mat_at_def upt_3)

section \<open>The stages\<close>

lemma rectangular_new_Mat: "rectangular h w (new_Mat h w v)"
  by (simp add: rectangular_def new_Mat_def list_all_length)

lemma for2_full_const:
  assumes "\<And>i j. i < h \<Longrightarrow> j < w \<Longrightarrow> body i j = c"
  shows "for2 0 h 0 w body (new_Mat h w v) = new_Mat h w c"
  by (rule Mat_eqI [OF rectangular_for2_new_Mat rectangular_new_Mat])
     (simp add: for2_new_Mat_nth assms)

lemma for2_inner_const:
  assumes "\<And>i j. i0 \<le> i \<Longrightarrow> i < i1 \<Longrightarrow> j0 \<le> j \<Longrightarrow> j < j1 \<Longrightarrow> i < h \<Longrightarrow> j < w \<Longrightarrow> body i j = v"
  shows "for2 i0 i1 j0 j1 body (new_Mat h w v) = new_Mat h w v"
  by (rule Mat_eqI [OF rectangular_for2_new_Mat rectangular_new_Mat])
     (simp add: for2_new_Mat_nth assms)

subsection \<open>The stages, cell by cell\<close>

lemma AltSobel_convertToRGB_at:
  "i < height self \<Longrightarrow> j < width self \<Longrightarrow>
   Mat_at (AltSobel_convertToRGB self input) i j
     = (case Mat_at input i j of (p0, p1, p2) \<Rightarrow> (p2, p1, p0))"
  by (simp add: AltSobel_convertToRGB_def Mat_at_def for2_new_Mat_nth)

lemma OmpSobel_convertToRGB_eq: "OmpSobel_convertToRGB = AltSobel_convertToRGB"
  by (simp add: fun_eq_iff OmpSobel_convertToRGB_def AltSobel_convertToRGB_def)

lemma AltSobel_convertToGrayscale_at:
  "i < height self \<Longrightarrow> j < width self \<Longrightarrow>
   Mat_at (AltSobel_convertToGrayscale self rgb) i j
     = (case Mat_at rgb i j of (p0, p1, p2) \<Rightarrow> weighted p0 p1 p2)"
  by (simp add: AltSobel_convertToGrayscale_def Mat_at_def for2_new_Mat_nth)

lemma OmpSobel_convertToGrayscale_at:
  "i < height self \<Longrightarrow> j < width self \<Longrightarrow>
   Mat_at (OmpSobel_convertToGrayscale self rgb) i j
     = (case Mat_at rgb i j of (p0, p1, p2) \<Rightarrow> weighted p2 p1 p0)"
  by (simp add: OmpSobel_convertToGrayscale_def Mat_at_def for2_new_Mat_nth)

lemma computeGradient_at:
  assumes "i < height self" "j < width self"
  shows "Mat_at (computeGradient kern self g) i j
     = (if length kern div 2 \<le> i \<and> i < height self - length kern div 2
           \<and> length kern div 2 \<le> j \<and> j < width self - length kern div 2
        then static_cast_int (fadd (fmul (scale self)
                 (of_int (kernelSum kern (length kern div 2) g i j))) (delta self))
        else 0)"
  using assms by (simp add: computeGradient_def Mat_at_def Let_def for2_new_Mat_nth)

lemma computeGradient_rectangular:
  "rectangular (height self) (width self) (computeGradient kern self g)"
  by (simp add: computeGradient_def Let_def rectangular_for2_new_Mat)

lemma OmpSobel_computeGradientX_eq: "OmpSobel_computeGradientX = AltSobel_computeGradientX"
  by (simp add: fun_eq_iff OmpSobel_computeGradientX_def AltSobel_computeGradientX_def)

lemma OmpSobel_computeGradientY_eq: "OmpSobel_computeGradientY = AltSobel_computeGradientY"
  by (simp add: fun_eq_iff OmpSobel_computeGradientY_def AltSobel_computeGradientY_def)

lemma OmpSobel_combineGradients_eq: "OmpSobel_combineGradients = AltSobel_combineGradients"
  by (simp add: fun_eq_iff OmpSobel_combineGradients_def AltSobel_combineGradients_def)

lemma AltSobel_combineGradients_at:
  "i < height self \<Longrightarrow> j < width self \<Longrightarrow>
   Mat_at (AltSobel_combineGradients self gradX gradY) i j
     = combineCell (Mat_at gradX i j) (Mat_at gradY i j)"
  by (simp add: AltSobel_combineGradients_def Mat_at_def for2_new_Mat_nth)

lemma floor_sqrt_0: "floor_sqrt 0 = 0"
  by (simp add: floor_sqrt.simps [of 0])

lemma combineCell_0: "combineCell 0 0 = 0"
  by (simp add: combineCell_def wrap32_def floor_sqrt_0)

lemma combineCell_in_range:
  assumes "gx * gx + gy * gy < 2 ^ 31"
  shows "uint (combineCell gx gy) = min 255 (floor_sqrt (gx * gx + gy * gy))"
proof -
  have x: "0 \<le> gx * gx" and y: "0 \<le> gy * gy"
    by simp_all
  with assms have b: "gx * gx < 2 ^ 31" "gy * gy < 2 ^ 31"
    by linarith+
  have w: "wrap32 (gx * gx) = gx * gx" "wrap32 (gy * gy) = gy * gy"
    using x y b by (simp_all add: wrap32_def)
  from x y assms have s: "wrap32 (gx * gx + gy * gy) = gx * gx + gy * gy"
    by (intro wrap32_id) linarith+
  have nn: "0 \<le> floor_sqrt (gx * gx + gy * gy)"
    using floor_sqrt_bounds [of "gx * gx + gy * gy"] x y by simp
  then have "0 \<le> min 255 (floor_sqrt (gx * gx + gy * gy))"
    "min 255 (floor_sqrt (gx * gx + gy * gy)) < 256"
    by simp_all
  then have "uint (word_of_int (min 255 (floor_sqrt (gx * gx + gy * gy))) :: u8)
      = min 255 (floor_sqrt (gx * gx + gy * gy))"
    by (simp add: uint_word_of_int take_bit_int_eq_self)
  moreover have "\<not> gx * gx + gy * gy < 0"
    using x y by linarith
  ultimately show ?thesis
    by (simp add: combineCell_def Let_def w s)
qed

subsection \<open>The gradients that reach combineGradients\<close>

lemma sobel_offsets [simp]: "length sobelX div 2 = 1" "length sobelY div 2 = 1"
  by (simp_all add: sobelX_def sobelY_def)

lemma sobel_lengths: "length sobelX = 3" "length sobelY = 3"
  by (simp_all add: sobelX_def sobelY_def)

lemma u8_range: "0 \<le> uint (x :: u8) \<and> uint x \<le> 255"
  using uint_lt2p [of x] by simp

lemma kernelSum_sobelX_bound: "\<bar>kernelSum sobelX 1 g i j\<bar> \<le> 1020"
  unfolding kernelSum_sobelX
  using u8_range [of "g ! (i - 1) ! (j + 1)"] u8_range [of "g ! (i - 1) ! (j - 1)"]
    u8_range [of "g ! i ! (j + 1)"] u8_range [of "g ! i ! (j - 1)"]
    u8_range [of "g ! (i + 1) ! (j + 1)"] u8_range [of "g ! (i + 1) ! (j - 1)"]
  by linarith

lemma kernelSum_sobelY_bound: "\<bar>kernelSum sobelY 1 g i j\<bar> \<le> 1020"
  unfolding kernelSum_sobelY
  using u8_range [of "g ! (i + 1) ! (j - 1)"] u8_range [of "g ! (i - 1) ! (j - 1)"]
    u8_range [of "g ! (i + 1) ! j"] u8_range [of "g ! (i - 1) ! j"]
    u8_range [of "g ! (i + 1) ! (j + 1)"] u8_range [of "g ! (i - 1) ! (j + 1)"]
  by linarith

lemma default_gradient_bound:
  assumes "scale self = 1" and "delta self = 0"
    and "i < height self" and "j < width self"
    and "length kern div 2 = 1"
    and "\<And>i j. \<bar>kernelSum kern 1 g i j\<bar> \<le> 1020"
  shows "\<bar>Mat_at (computeGradient kern self g) i j\<bar> \<le> 1020"
proof -
  have "\<bar>kernelSum kern 1 g i j\<bar> < 2 ^ 31"
    using assms(6) [of i j] by simp
  then have "static_cast_int (fadd (fmul 1 (of_int (kernelSum kern 1 g i j))) 0)
      = kernelSum kern 1 g i j"
    by (rule affine_default)
  with assms show ?thesis
    by (simp add: computeGradient_at)
qed

lemma square_bound:
  assumes "\<bar>x\<bar> \<le> (1020 :: int)"
  shows "x * x \<le> 1040400"
proof -
  have "\<bar>x\<bar> * \<bar>x\<bar> \<le> 1020 * 1020"
    using assms by (intro mult_mono) simp_all
  then show ?thesis
    by (simp add: abs_mult_self_eq)
qed

lemma gradient_field_bound:
  assumes "scale self = 1" and "delta self = 0"
    and "i < height self" and "j < width self"
    and "gradX = AltSobel_computeGradientX self grayX \<or> gradX = OmpSobel_computeGradientX self grayX"
    and "gradY = AltSobel_computeGradientY self grayY \<or> gradY = OmpSobel_computeGradientY self grayY"
  shows "\<bar>Mat_at gradX i j\<bar> \<le> 1020" and "\<bar>Mat_at gradY i j\<bar> \<le> 1020"
proof -
  have "\<bar>Mat_at (computeGradient sobelX self grayX) i j\<bar> \<le> 1020"
    by (rule default_gradient_bound) (use assms kernelSum_sobelX_bound in simp_all)
  with assms(5) show "\<bar>Mat_at gradX i j\<bar> \<le> 1020"
    by (auto simp: AltSobel_computeGradientX_def OmpSobel_computeGradientX_def)
  have "\<bar>Mat_at (computeGradient sobelY self grayY) i j\<bar> \<le> 1020"
    by (rule default_gradient_bound) (use assms kernelSum_sobelY_bound in simp_all)
  with assms(6) show "\<bar>Mat_at gradY i j\<bar> \<le> 1020"
    by (auto simp: AltSobel_computeGradientY_def OmpSobel_computeGradientY_def)
qed

lemma combineGradients_in_range:
  assumes "i < height self" and "j < width self"
    and "gx = Mat_at gradX i j" and "gy = Mat_at gradY i j"
    and "gx * gx + gy * gy < 2 ^ 31"
  shows "uint (Mat_at (AltSobel_combineGradients self gradX gradY) i j)
           = min 255 \<lfloor>sqrt (real_of_int (gx * gx + gy * gy))\<rfloor>"
proof -
  have "0 \<le> gx * gx + gy * gy"
    by simp
  then have "floor_sqrt (gx * gx + gy * gy) = \<lfloor>sqrt (real_of_int (gx * gx + gy * gy))\<rfloor>"
    by (rule floor_sqrt_real)
  with combineCell_in_range [OF assms(5)]
  have "uint (combineCell gx gy) = min 255 \<lfloor>sqrt (real_of_int (gx * gx + gy * gy))\<rfloor>"
    by simp
  with assms(1-4) show ?thesis
    by (simp add: AltSobel_combineGradients_at)
qed

subsection \<open>The grayscale sample fits 8 bits\<close>

lemma rne_error: "\<bar>of_int (rne z) - z\<bar> \<le> 1 / 2"
proof -
  have "of_int \<lfloor>z\<rfloor> \<le> z" "z < of_int \<lfloor>z\<rfloor> + 1"
    by linarith+
  then show ?thesis
    by (auto simp: rne_def Let_def)
qed

lemma rne_nonneg: "0 \<le> z \<Longrightarrow> 0 \<le> rne z"
  by (auto simp: rne_def Let_def)

lemma fl_nonneg:
  assumes "0 \<le> x"
  shows "0 \<le> fl x"
proof (cases "x = 0")
  case True
  then show ?thesis by simp
next
  case False
  have "(0::rat) < 2 powi (binade x - 52)"
    by simp
  with assms have "0 \<le> rne (x / 2 powi (binade x - 52))"
    by (intro rne_nonneg) simp
  with False show ?thesis
    by (simp add: fl_def Let_def)
qed

lemma fl_error: "\<bar>fl x - x\<bar> \<le> \<bar>x\<bar> / 2 ^ 53"
proof (cases "x = 0")
  case True
  then show ?thesis by simp
next
  case False
  define u :: rat where "u = 2 powi (binade x - 52)"
  have u: "0 < u"
    by (simp add: u_def)
  have "u = 2 powi binade x / 2 ^ 52"
    by (simp add: u_def power_int_diff)
  with binade_bounds(1) [OF False] have ub: "u \<le> \<bar>x\<bar> / 2 ^ 52"
    by (simp add: divide_right_mono)
  have "fl x - x = (of_int (rne (x / u)) - x / u) * u"
    using False u by (simp add: fl_def Let_def u_def [symmetric] field_simps)
  then have "\<bar>fl x - x\<bar> = \<bar>of_int (rne (x / u)) - x / u\<bar> * u"
    using u by (simp add: abs_mult)
  also have "\<dots> \<le> 1 / 2 * u"
    using rne_error [of "x / u"] u by (intro mult_right_mono) simp_all
  also have "\<dots> \<le> \<bar>x\<bar> / 2 ^ 53"
    using ub by simp
  finally show ?thesis .
qed

lemma fl_upper:
  assumes "0 \<le> x" and "x \<le> b"
  shows "fl x \<le> b + b / 10000"
proof -
  have "fl x \<le> x + \<bar>x\<bar> / 2 ^ 53"
    using fl_error [of x] by linarith
  also have "\<dots> \<le> x + x / 10000"
    using assms(1) by (simp add: field_simps)
  also have "\<dots> \<le> b + b / 10000"
    using assms(2) by simp
  finally show ?thesis .
qed

lemma weight_times_sample:
  assumes "0 \<le> w" and "w \<le> b" and "0 \<le> s" and "s \<le> 255"
  shows "0 \<le> fmul (fl w) s" and "fmul (fl w) s \<le> 255 * (b + b / 10000) * (1 + 1 / 10000)"
proof -
  have c: "0 \<le> fl w" "fl w \<le> b + b / 10000"
    by (rule fl_nonneg, fact) (rule fl_upper, fact+)
  then have p: "0 \<le> fl w * s"
    using assms(3) by simp
  have "fl w * s \<le> (b + b / 10000) * 255"
    using c assms(3,4) by (intro mult_mono) simp_all
  with p have "fl (fl w * s) \<le> (b + b / 10000) * 255 + (b + b / 10000) * 255 / 10000"
    by (rule fl_upper)
  then show "fmul (fl w) s \<le> 255 * (b + b / 10000) * (1 + 1 / 10000)"
    by (simp add: fmul_def field_simps)
  show "0 \<le> fmul (fl w) s"
    using p by (simp add: fmul_def fl_nonneg)
qed

lemma weighted_sum_range:
  fixes a b c :: u8
  defines "v \<equiv> fadd (fadd (fmul (fl (299 / 1000)) (of_int (uint a)))
                         (fmul (fl (587 / 1000)) (of_int (uint b))))
                   (fmul (fl (114 / 1000)) (of_int (uint c)))"
  shows "0 \<le> v" and "v < 256"
proof -
  have s: "(0::rat) \<le> of_int (uint x)" "rat_of_int (uint x) \<le> 255" for x :: u8
  proof -
    have "rat_of_int 0 \<le> of_int (uint x)" "rat_of_int (uint x) \<le> of_int 255"
      using u8_range [of x] by (simp_all only: of_int_le_iff)
    then show "(0::rat) \<le> of_int (uint x)" "rat_of_int (uint x) \<le> 255"
      by simp_all
  qed
  let ?p1 = "fmul (fl (299 / 1000)) (of_int (uint a))"
  let ?p2 = "fmul (fl (587 / 1000)) (of_int (uint b))"
  let ?p3 = "fmul (fl (114 / 1000)) (of_int (uint c))"
  have p1: "0 \<le> ?p1" "?p1 \<le> 763 / 10"
    using weight_times_sample [of "299 / 1000" "299 / 1000" "of_int (uint a)"] s [of a]
    by simp_all
  have p2: "0 \<le> ?p2" "?p2 \<le> 1498 / 10"
    using weight_times_sample [of "587 / 1000" "587 / 1000" "of_int (uint b)"] s [of b]
    by simp_all
  have p3: "0 \<le> ?p3" "?p3 \<le> 291 / 10"
    using weight_times_sample [of "114 / 1000" "114 / 1000" "of_int (uint c)"] s [of c]
    by simp_all
  have s1: "0 \<le> fadd ?p1 ?p2" "fadd ?p1 ?p2 \<le> 2262 / 10"
    using p1 p2 fl_upper [of "?p1 + ?p2" "2261 / 10"] fl_nonneg [of "?p1 + ?p2"]
    by (simp_all add: fadd_def)
  have "0 \<le> fadd (fadd ?p1 ?p2) ?p3" "fadd (fadd ?p1 ?p2) ?p3 \<le> 2554 / 10"
    using s1 p3 fl_upper [of "fadd ?p1 ?p2 + ?p3" "2553 / 10"] fl_nonneg [of "fadd ?p1 ?p2 + ?p3"]
    by (simp_all add: fadd_def)
  then show "0 \<le> v" and "v < 256"
    by (simp_all add: v_def)
qed

lemma weighted_no_wrap:
  "uint (weighted a b c) = trunc_int
     (fadd (fadd (fmul (fl (299 / 1000)) (of_int (uint a)))
                 (fmul (fl (587 / 1000)) (of_int (uint b))))
           (fmul (fl (114 / 1000)) (of_int (uint c))))"
proof -
  let ?v = "fadd (fadd (fmul (fl (299 / 1000)) (of_int (uint a)))
                       (fmul (fl (587 / 1000)) (of_int (uint b))))
                 (fmul (fl (114 / 1000)) (of_int (uint c)))"
  from weighted_sum_range [of a b c] have "0 \<le> ?v" "?v < 256"
    by simp_all
  then have "0 \<le> \<lfloor>?v\<rfloor>" "\<lfloor>?v\<rfloor> < 256"
    by (simp_all add: floor_less_iff)
  then show ?thesis
    using \<open>0 \<le> ?v\<close> by (simp add: weighted_def trunc_int_def uint_word_of_int take_bit_int_eq_self)
qed

subsection \<open>Interior and border of a gradient field\<close>

lemma computeGradient_interior:
  assumes "length kern = k" and "offset = k div 2"
    and "offset \<le> i" and "i < height self - offset"
    and "offset \<le> j" and "j < width self - offset"
  shows "Mat_at (computeGradient kern self grayImage) i j =
     static_cast_int (fadd (fmul (scale self) (of_int (kernelSum kern offset grayImage i j)))
                     (delta self))"
  using assms by (subst computeGradient_at) auto

lemma computeGradient_border:
  assumes "i < height self" and "j < width self"
    and "i < length kern div 2 \<or> height self - length kern div 2 \<le> i
         \<or> j < length kern div 2 \<or> width self - length kern div 2 \<le> j"
  shows "Mat_at (computeGradient kern self g) i j = 0"
  using assms by (subst computeGradient_at) auto

lemma sum_lessThan_3: "(\<Sum>k<(3::nat). f k) = f 0 + f 1 + (f 2 :: int)"
  by (simp add: numeral_3_eq_3 numeral_2_eq_2 lessThan_Suc)

lemma ramp_sums:
  "(\<Sum>ki<3. \<Sum>kj<3. Mat_at sobelX ki kj * uint (Mat_at ramp (1 + ki - 1) (1 + kj - 1))) = 8"
  "(\<Sum>ki<3. \<Sum>kj<3. Mat_at sobelY ki kj * uint (Mat_at ramp (1 + ki - 1) (1 + kj - 1))) = 24"
  by (simp_all add: sum_lessThan_3 Mat_at_def sobelX_def sobelY_def ramp_def)

lemma constructed_fields:
  "scale (sized (AltSobel k) h w) = 1" "delta (sized (AltSobel k) h w) = 0"
  "height (sized (AltSobel k) h w) = h" "width (sized (AltSobel k) h w) = w"
  "sized (OmpSobel k) h w = sized (AltSobel k) h w"
  by (simp_all add: sized_def AltSobel_def OmpSobel_def)


subsection \<open>Loading, and the channels of the grayscale stage\<close>

lemma getImage_empty:
  "Mat_empty (imread p) \<Longrightarrow>
   getImage imread p = Inl (RuntimeError (''Could not read the image: '' @ p))"
  by (simp add: getImage_def)

lemma getImage_nonempty:
  "\<not> Mat_empty (imread p) \<Longrightarrow> getImage imread p = Inr (imread p)"
  by (simp add: getImage_def)

lemma grayscale_channels:
  assumes "i < height self" and "j < width self" and "Mat_at input i j = (b, g, r)"
  shows "Mat_at (AltSobel_convertToGrayscale self (AltSobel_convertToRGB self input)) i j
           = weighted r g b"
    and "Mat_at (OmpSobel_convertToGrayscale self (OmpSobel_convertToRGB self input)) i j
           = weighted b g r"
  using assms
  by (simp_all add: AltSobel_convertToGrayscale_at OmpSobel_convertToGrayscale_at
      OmpSobel_convertToRGB_eq AltSobel_convertToRGB_at)

text \<open>
  The sum is formed in doubles: for the colour \<open>(1, 1, 1)\<close> it is just below 1, and the
  sample is 0.
\<close>

lemma weighted_rounds_each_operation: "weighted 1 1 1 = 0"
  by code_simp

text \<open>
  The two pipelines differ in the grayscale stage only, and there only where red and
  blue differ.
\<close>

lemma grayscale_rectangular:
  "rectangular (height self) (width self) (AltSobel_convertToGrayscale self rgb)"
  "rectangular (height self) (width self) (OmpSobel_convertToGrayscale self rgb)"
  by (simp_all add: AltSobel_convertToGrayscale_def OmpSobel_convertToGrayscale_def
      rectangular_for2_new_Mat)

lemma grayscale_agree_when_red_equals_blue:
  assumes "\<And>i j. i < height self \<Longrightarrow> j < width self \<Longrightarrow>
             fst (Mat_at input i j) = snd (snd (Mat_at input i j))"
  shows "OmpSobel_convertToGrayscale self (OmpSobel_convertToRGB self input)
           = AltSobel_convertToGrayscale self (AltSobel_convertToRGB self input)"
proof (rule Mat_eqI [OF grayscale_rectangular(2) grayscale_rectangular(1)])
  fix i j
  assume ij: "i < height self" "j < width self"
  obtain b g r where p: "Mat_at input i j = (b, g, r)"
    by (cases "Mat_at input i j")
  with assms [OF ij] have "b = r"
    by simp
  with grayscale_channels [OF ij p]
  show "OmpSobel_convertToGrayscale self (OmpSobel_convertToRGB self input) ! i ! j
      = AltSobel_convertToGrayscale self (AltSobel_convertToRGB self input) ! i ! j"
    by (simp add: Mat_at_def)
qed

lemma pipelines_agree_when_red_equals_blue:
  assumes "\<And>i j. i < Mat_rows (imread inputPath) \<Longrightarrow> j < Mat_cols (imread inputPath) \<Longrightarrow>
             fst (Mat_at (imread inputPath) i j) = snd (snd (Mat_at (imread inputPath) i j))"
  shows "OmpSobel_getEdges imread self inputPath outputName d
           = AltSobel_getEdges imread self inputPath outputName d"
proof (cases "Mat_empty (imread inputPath)")
  case True
  then show ?thesis
    by (simp add: OmpSobel_getEdges_def AltSobel_getEdges_def getImage_empty)
next
  case False
  let ?s = "self\<lparr>height := Mat_rows (imread inputPath), width := Mat_cols (imread inputPath)\<rparr>"
  have "OmpSobel_convertToGrayscale ?s (OmpSobel_convertToRGB ?s (imread inputPath))
      = AltSobel_convertToGrayscale ?s (AltSobel_convertToRGB ?s (imread inputPath))"
    by (rule grayscale_agree_when_red_equals_blue) (simp add: assms)
  with False show ?thesis
    by (simp add: OmpSobel_getEdges_def AltSobel_getEdges_def getImage_nonempty
        Let_def OmpSobel_computeGradientX_eq OmpSobel_computeGradientY_eq
        OmpSobel_combineGradients_eq)
qed

subsection \<open>Uniform images\<close>

lemma Mat_rows_new_Mat [simp]: "Mat_rows (new_Mat h w v) = h"
  by (simp add: Mat_rows_def)

lemma Mat_cols_new_Mat [simp]: "0 < h \<Longrightarrow> Mat_cols (new_Mat h w v) = w"
  by (cases h) (simp_all add: Mat_cols_def new_Mat_def)

lemma convertToRGB_uniform:
  assumes "height self = h" and "width self = w"
  shows "AltSobel_convertToRGB self (new_Mat h w (b, g, r)) = new_Mat h w (r, g, b)"
  unfolding AltSobel_convertToRGB_def assms
  by (rule for2_full_const) (simp add: Mat_at_def)

lemma AltSobel_convertToGrayscale_uniform:
  assumes "height self = h" and "width self = w"
  shows "AltSobel_convertToGrayscale self (new_Mat h w (r, g, b)) = new_Mat h w (weighted r g b)"
  unfolding AltSobel_convertToGrayscale_def assms
  by (rule for2_full_const) (simp add: Mat_at_def)

lemma OmpSobel_convertToGrayscale_uniform:
  assumes "height self = h" and "width self = w"
  shows "OmpSobel_convertToGrayscale self (new_Mat h w (r, g, b)) = new_Mat h w (weighted b g r)"
  unfolding OmpSobel_convertToGrayscale_def assms
  by (rule for2_full_const) (simp add: Mat_at_def)

lemma kernelSum_uniform:
  assumes "1 \<le> i" and "i < h - 1" and "1 \<le> j" and "j < w - 1"
  shows "kernelSum sobelX 1 (new_Mat h w c) i j = 0"
    and "kernelSum sobelY 1 (new_Mat h w c) i j = 0"
proof -
  have r: "i - 1 < h" "i < h" "i + 1 < h" "j - 1 < w" "j < w" "j + 1 < w"
    using assms by linarith+
  show "kernelSum sobelX 1 (new_Mat h w c) i j = 0"
    unfolding kernelSum_sobelX using r by simp
  show "kernelSum sobelY 1 (new_Mat h w c) i j = 0"
    unfolding kernelSum_sobelY using r by simp
qed

lemma computeGradient_uniform:
  assumes "height self = h" and "width self = w" and "delta self = 0"
  shows "computeGradient sobelX self (new_Mat h w c) = new_Mat h w 0"
    and "computeGradient sobelY self (new_Mat h w c) = new_Mat h w 0"
proof -
  have x: "static_cast_int (fadd (fmul (scale self)
             (of_int (kernelSum sobelX 1 (new_Mat h w c) i j))) 0) = 0"
    if "1 \<le> i" "i < h - 1" "1 \<le> j" "j < w - 1" for i j
    by (simp only: kernelSum_uniform(1) [OF that]) (simp add: fadd_def fmul_def trunc_int_def static_cast_int_def)
  have y: "static_cast_int (fadd (fmul (scale self)
             (of_int (kernelSum sobelY 1 (new_Mat h w c) i j))) 0) = 0"
    if "1 \<le> i" "i < h - 1" "1 \<le> j" "j < w - 1" for i j
    by (simp only: kernelSum_uniform(2) [OF that]) (simp add: fadd_def fmul_def trunc_int_def static_cast_int_def)
  show "computeGradient sobelX self (new_Mat h w c) = new_Mat h w 0"
    unfolding computeGradient_def Let_def sobel_offsets assms
    by (rule for2_inner_const) (rule x)
  show "computeGradient sobelY self (new_Mat h w c) = new_Mat h w 0"
    unfolding computeGradient_def Let_def sobel_offsets assms
    by (rule for2_inner_const) (rule y)
qed

lemma combineGradients_zero:
  assumes "height self = h" and "width self = w"
  shows "AltSobel_combineGradients self (new_Mat h w 0) (new_Mat h w 0) = new_Mat h w 0"
  unfolding AltSobel_combineGradients_def assms
  by (rule for2_full_const) (simp add: Mat_at_def combineCell_0)

subsection \<open>The field ksize\<close>

lemma stages_cong:
  assumes "height a = height b" and "width a = width b"
    and "scale a = scale b" and "delta a = delta b"
  shows "AltSobel_convertToRGB a = AltSobel_convertToRGB b"
    and "AltSobel_convertToGrayscale a = AltSobel_convertToGrayscale b"
    and "OmpSobel_convertToGrayscale a = OmpSobel_convertToGrayscale b"
    and "computeGradient kern a = computeGradient kern b"
    and "AltSobel_combineGradients a = AltSobel_combineGradients b"
  using assms
  by (simp_all add: fun_eq_iff AltSobel_convertToRGB_def AltSobel_convertToGrayscale_def
      OmpSobel_convertToGrayscale_def computeGradient_def AltSobel_combineGradients_def)

lemma stages_ignore_ksize:
  "AltSobel_convertToRGB (self\<lparr>ksize := k, height := h, width := w\<rparr>)
     = AltSobel_convertToRGB (self\<lparr>height := h, width := w\<rparr>)"
  "AltSobel_convertToGrayscale (self\<lparr>ksize := k, height := h, width := w\<rparr>)
     = AltSobel_convertToGrayscale (self\<lparr>height := h, width := w\<rparr>)"
  "OmpSobel_convertToGrayscale (self\<lparr>ksize := k, height := h, width := w\<rparr>)
     = OmpSobel_convertToGrayscale (self\<lparr>height := h, width := w\<rparr>)"
  "computeGradient kern (self\<lparr>ksize := k, height := h, width := w\<rparr>)
     = computeGradient kern (self\<lparr>height := h, width := w\<rparr>)"
  "AltSobel_combineGradients (self\<lparr>ksize := k, height := h, width := w\<rparr>)
     = AltSobel_combineGradients (self\<lparr>height := h, width := w\<rparr>)"
  by (rule stages_cong; simp)+

lemma AltSobel_getEdges_ksize:
  "fst (AltSobel_getEdges imread (self\<lparr>ksize := k\<rparr>) inputPath outputName d)
     = fst (AltSobel_getEdges imread self inputPath outputName d)
   \<and> snd (snd (AltSobel_getEdges imread (self\<lparr>ksize := k\<rparr>) inputPath outputName d))
     = snd (snd (AltSobel_getEdges imread self inputPath outputName d))"
  by (simp add: AltSobel_getEdges_def Let_def stages_ignore_ksize
      AltSobel_computeGradientX_def AltSobel_computeGradientY_def split: sum.splits)

lemma OmpSobel_getEdges_ksize:
  "fst (OmpSobel_getEdges imread (self\<lparr>ksize := k\<rparr>) inputPath outputName d)
     = fst (OmpSobel_getEdges imread self inputPath outputName d)
   \<and> snd (snd (OmpSobel_getEdges imread (self\<lparr>ksize := k\<rparr>) inputPath outputName d))
     = snd (snd (OmpSobel_getEdges imread self inputPath outputName d))"
  by (simp add: OmpSobel_getEdges_def Let_def stages_ignore_ksize
      OmpSobel_convertToRGB_eq OmpSobel_combineGradients_eq
      OmpSobel_computeGradientX_def OmpSobel_computeGradientY_def split: sum.splits)

lemma constructors_ksize:
  "AltSobel k = (AltSobel 0)\<lparr>ksize := k\<rparr>" "OmpSobel k = (OmpSobel 0)\<lparr>ksize := k\<rparr>"
  by (simp_all add: AltSobel_def OmpSobel_def)

section \<open>Claims\<close>

text \<open>
  Claim C1 says that OmpSobel::getEdges and AltSobel::getEdges give the same edge map on
  every input. On the image \<open>red_column\<close> they do not: the grayscale stage of OmpSobel
  puts the weight 0.299 on blue and 0.114 on red, so that pure red becomes 29 where
  AltSobel makes it 76, and the centre of the edge map is 116 where AltSobel has 255.
\<close>

theorem pipelines_differ_on_red_column:
  "fst (AltSobel_getEdges (\<lambda>p. red_column) (AltSobel 3) ''in.png'' ''out.png'' Map.empty)
     = Inr [[0, 0, 0], [0, 255, 0], [0, 0, 0]]
   \<and> fst (OmpSobel_getEdges (\<lambda>p. red_column) (OmpSobel 3) ''in.png'' ''out.png'' Map.empty)
     = Inr [[0, 0, 0], [0, 116, 0], [0, 0, 0]]"
  by code_simp

text \<open>
  Claim C2 says that the grayscale stage of both pipelines is the truncation of
  \<open>0.299 * red + 0.587 * green + 0.114 * blue\<close>. On one pure red pixel that is 76, the
  truncation of \<open>0.299 * 255\<close>, and AltSobel gives 76; OmpSobel gives 29, the truncation of
  \<open>0.114 * 255\<close>: it reads the RGB matrix that its convertToRGB has made as if it were BGR.
\<close>

theorem grayscale_of_red_pixel:
  "weighted 255 0 0 = 76
   \<and> AltSobel_convertToGrayscale (sized (AltSobel 3) 1 1)
       (AltSobel_convertToRGB (sized (AltSobel 3) 1 1) red_pixel) = [[76]]
   \<and> OmpSobel_convertToGrayscale (sized (OmpSobel 3) 1 1)
       (OmpSobel_convertToRGB (sized (OmpSobel 3) 1 1) red_pixel) = [[29]]"
  by code_simp

text \<open>
  Claim C3. At every interior cell \<open>(i, j)\<close> of a gradient field (at least
  \<open>offset = k div 2\<close> away from every edge, for a kernel of odd size \<open>k\<close>), the value stored
  is \<open>scale * S + delta\<close>, computed in doubles and truncated toward zero, where \<open>S\<close> is the
  integer dot product of the kernel with the \<open>k\<close> by \<open>k\<close> neighbourhood centred at
  \<open>(i, j)\<close>, whenever that value fits the 32 bits of the cell. This holds of the body that
  the four gradient functions share, for any kernel table, and so of computeGradientX of
  AltSobel and of OmpSobel with the table sobelX, and of computeGradientY of both with the
  table sobelY. With the scale 1 and the delta 0 that the constructors set, the value is
  \<open>S\<close> itself, at most 1020 in absolute value (lemma \<open>default_gradient_bound\<close>).
\<close>

theorem computeGradient_interior_value:
  assumes "length kern = k" and "odd k" and "offset = k div 2"
    and "offset \<le> i" and "i < height self - offset"
    and "offset \<le> j" and "j < width self - offset"
    and "S = (\<Sum>ki<k. \<Sum>kj<k.
           Mat_at kern ki kj * uint (Mat_at grayImage (i + ki - offset) (j + kj - offset)))"
    and "v = trunc_int (fadd (fmul (scale self) (of_int S)) (delta self))"
    and "- (2 ^ 31) \<le> v" and "v < 2 ^ 31"
  shows "Mat_at (computeGradient kern self grayImage) i j = v
       \<and> (kern = sobelX \<longrightarrow>
            Mat_at (AltSobel_computeGradientX self grayImage) i j = v
          \<and> Mat_at (OmpSobel_computeGradientX self grayImage) i j = v)
       \<and> (kern = sobelY \<longrightarrow>
            Mat_at (AltSobel_computeGradientY self grayImage) i j = v
          \<and> Mat_at (OmpSobel_computeGradientY self grayImage) i j = v)"
proof -
  have S: "kernelSum kern offset grayImage i j = S"
    by (simp only: kernelSum_sum Mat_at_def assms(1) assms(8))
  have "Mat_at (computeGradient kern self grayImage) i j =
     static_cast_int (fadd (fmul (scale self) (of_int (kernelSum kern offset grayImage i j)))
                     (delta self))"
    by (rule computeGradient_interior) fact+
  also have "\<dots> = v"
    unfolding S using assms(10,11) unfolding assms(9) by (rule static_cast_int_in_range)
  finally have "Mat_at (computeGradient kern self grayImage) i j = v" .
  then show ?thesis
    by (auto simp: AltSobel_computeGradientX_def AltSobel_computeGradientY_def
        OmpSobel_computeGradientX_def OmpSobel_computeGradientY_def)
qed

text \<open>
  The centre of the 3 by 3 ramp, in an object as constructed: \<open>S\<close> is 8 under sobelX and
  24 under sobelY.
\<close>

theorem computeGradient_interior_value_witness:
  "Mat_at (AltSobel_computeGradientX (sized (AltSobel 3) 3 3) ramp) 1 1 = 8
   \<and> Mat_at (OmpSobel_computeGradientX (sized (OmpSobel 3) 3 3) ramp) 1 1 = 8
   \<and> Mat_at (AltSobel_computeGradientY (sized (AltSobel 3) 3 3) ramp) 1 1 = 24
   \<and> Mat_at (OmpSobel_computeGradientY (sized (OmpSobel 3) 3 3) ramp) 1 1 = 24"
proof -
  let ?s = "sized (AltSobel 3) 3 3"
  have k: "odd (3::nat)" "(1::nat) = 3 div 2" "(1::nat) \<le> 1"
    "1 < height ?s - 1" "1 < width ?s - 1"
    by (simp_all add: constructed_fields)
  have vx: "8 = trunc_int (fadd (fmul (scale ?s) (of_int 8)) (delta ?s))"
    using fl_of_int [of 8] by (simp add: fadd_def fmul_def trunc_int_def constructed_fields)
  have vy: "24 = trunc_int (fadd (fmul (scale ?s) (of_int 24)) (delta ?s))"
    using fl_of_int [of 24] by (simp add: fadd_def fmul_def trunc_int_def constructed_fields)
  have r: "- (2 ^ 31) \<le> (8::int)" "(8::int) < 2 ^ 31" "- (2 ^ 31) \<le> (24::int)" "(24::int) < 2 ^ 31"
    by simp_all
  note x = computeGradient_interior_value [OF sobel_lengths(1) k(1) k(2) k(3) k(4) k(3) k(5) ramp_sums(1) [symmetric]
      vx r(1) r(2)]
  note y = computeGradient_interior_value [OF sobel_lengths(2) k(1) k(2) k(3) k(4) k(3) k(5) ramp_sums(2) [symmetric]
      vy r(3) r(4)]
  from x y show ?thesis
    by (simp add: constructed_fields)
qed

text \<open>
  Claim C4. With the 3 by 3 kernels, every cell of row 0, of the last row, of column 0
  and of the last column is zero in the X and in the Y gradient field, and so is the cell
  of the edge map that combineGradients computes from them; for AltSobel and for OmpSobel.
\<close>

theorem border_cells_zero:
  assumes "i < height self" and "j < width self"
    and "i = 0 \<or> i = height self - 1 \<or> j = 0 \<or> j = width self - 1"
  shows "Mat_at (AltSobel_computeGradientX self g) i j = 0
       \<and> Mat_at (AltSobel_computeGradientY self g) i j = 0
       \<and> Mat_at (AltSobel_combineGradients self (AltSobel_computeGradientX self g)
                    (AltSobel_computeGradientY self g)) i j = 0
       \<and> Mat_at (OmpSobel_computeGradientX self g) i j = 0
       \<and> Mat_at (OmpSobel_computeGradientY self g) i j = 0
       \<and> Mat_at (OmpSobel_combineGradients self (OmpSobel_computeGradientX self g)
                    (OmpSobel_computeGradientY self g)) i j = 0"
proof -
  from assms have b: "i < 1 \<or> height self - 1 \<le> i \<or> j < 1 \<or> width self - 1 \<le> j"
    by auto
  have x: "Mat_at (computeGradient sobelX self g) i j = 0"
    by (rule computeGradient_border) (use assms b in simp_all)
  have y: "Mat_at (computeGradient sobelY self g) i j = 0"
    by (rule computeGradient_border) (use assms b in simp_all)
  show ?thesis
    using assms(1,2) x y
    by (simp add: OmpSobel_computeGradientX_eq OmpSobel_computeGradientY_eq
        OmpSobel_combineGradients_eq AltSobel_computeGradientX_def
        AltSobel_computeGradientY_def AltSobel_combineGradients_at combineCell_0)
qed

text \<open>The top right cell of the 3 by 3 ramp.\<close>

theorem border_cells_zero_witness:
  "Mat_at (AltSobel_computeGradientX (sized (AltSobel 3) 3 3) ramp) 0 2 = 0
   \<and> Mat_at (AltSobel_computeGradientY (sized (AltSobel 3) 3 3) ramp) 0 2 = 0
   \<and> Mat_at (AltSobel_combineGradients (sized (AltSobel 3) 3 3)
         (AltSobel_computeGradientX (sized (AltSobel 3) 3 3) ramp)
         (AltSobel_computeGradientY (sized (AltSobel 3) 3 3) ramp)) 0 2 = 0"
  using border_cells_zero [of 0 "sized (AltSobel 3) 3 3" 2 ramp]
  by (simp add: sized_def)

text \<open>
  Claim C5. For every pair of gradient fields, the X field and the Y field that the
  gradient functions of either class compute in an object as constructed (scale 1,
  delta 0), every cell of combineGradients of AltSobel and of OmpSobel is
  \<open>min 255 (floor (sqrt (gx^2 + gy^2)))\<close>: at most 255, and the conversion to 8 bits does
  not wrap. The gradients are at most 1020 in absolute value (lemma
  \<open>gradient_field_bound\<close>), so that the squares and their sum stay inside \<^verbatim>\<open>int\<close>.
\<close>

theorem combineGradients_clamped_magnitude:
  assumes "scale self = 1" and "delta self = 0"
    and "i < height self" and "j < width self"
    and "gradX = AltSobel_computeGradientX self grayX \<or> gradX = OmpSobel_computeGradientX self grayX"
    and "gradY = AltSobel_computeGradientY self grayY \<or> gradY = OmpSobel_computeGradientY self grayY"
    and "gx = Mat_at gradX i j" and "gy = Mat_at gradY i j"
  shows "uint (Mat_at (AltSobel_combineGradients self gradX gradY) i j)
           = min 255 \<lfloor>sqrt (real_of_int (gx * gx + gy * gy))\<rfloor>
       \<and> uint (Mat_at (OmpSobel_combineGradients self gradX gradY) i j)
           = min 255 \<lfloor>sqrt (real_of_int (gx * gx + gy * gy))\<rfloor>
       \<and> uint (Mat_at (AltSobel_combineGradients self gradX gradY) i j) \<le> 255
       \<and> uint (Mat_at (OmpSobel_combineGradients self gradX gradY) i j) \<le> 255"
proof -
  from gradient_field_bound [OF assms(1-6)]
  have "\<bar>gx\<bar> \<le> 1020" "\<bar>gy\<bar> \<le> 1020"
    by (simp_all add: assms(7,8))
  then have "gx * gx \<le> 1040400" "gy * gy \<le> 1040400"
    by (simp_all add: square_bound)
  then have "gx * gx + gy * gy < 2 ^ 31"
    by simp
  with assms(3,4,7,8)
  have "uint (Mat_at (AltSobel_combineGradients self gradX gradY) i j)
      = min 255 \<lfloor>sqrt (real_of_int (gx * gx + gy * gy))\<rfloor>"
    by (rule combineGradients_in_range)
  then show ?thesis
    by (simp add: OmpSobel_combineGradients_eq)
qed

text \<open>
  The centre of the ramp: the gradient pair is \<open>(8, 24)\<close>, of magnitude 25.
\<close>

theorem combineGradients_clamped_magnitude_witness:
  "uint (Mat_at (AltSobel_combineGradients (sized (AltSobel 3) 3 3)
           (AltSobel_computeGradientX (sized (AltSobel 3) 3 3) ramp)
           (AltSobel_computeGradientY (sized (AltSobel 3) 3 3) ramp)) 1 1) = 25
   \<and> uint (Mat_at (OmpSobel_combineGradients (sized (OmpSobel 3) 3 3)
           (OmpSobel_computeGradientX (sized (OmpSobel 3) 3 3) ramp)
           (OmpSobel_computeGradientY (sized (OmpSobel 3) 3 3) ramp)) 1 1) = 25"
proof -
  let ?s = "sized (AltSobel 3) 3 3"
  have gx: "Mat_at (AltSobel_computeGradientX ?s ramp) 1 1 = 8"
    and gy: "Mat_at (AltSobel_computeGradientY ?s ramp) 1 1 = 24"
    by code_simp+
  have "floor_sqrt (8 * 8 + 24 * 24) = 25"
    by code_simp
  then have r: "\<lfloor>sqrt (real_of_int (8 * 8 + 24 * 24))\<rfloor> = 25"
    using floor_sqrt_real [of "8 * 8 + 24 * 24"] by simp
  have h: "scale ?s = 1" "delta ?s = 0" "1 < height ?s" "1 < width ?s"
    by (simp_all add: constructed_fields)
  from combineGradients_clamped_magnitude [OF h, of "AltSobel_computeGradientX ?s ramp" ramp
      "AltSobel_computeGradientY ?s ramp" ramp 8 24]
  show ?thesis
    using gx gy r
    by (simp add: OmpSobel_computeGradientX_eq OmpSobel_computeGradientY_eq constructed_fields)
qed

text \<open>
  Claim C6. When the input path gives no decodable, non-empty image, getEdges of
  AltSobel and of OmpSobel ends with the runtime error that carries the path; the object
  has not stored any dimension, no stage has run and the disk is as it was: no output file.
\<close>

theorem getEdges_load_failure:
  assumes "Mat_empty (imread inputPath)"
  shows "AltSobel_getEdges imread self inputPath outputName d
           = (Inl (RuntimeError (''Could not read the image: '' @ inputPath)), self, d)
       \<and> OmpSobel_getEdges imread self inputPath outputName d
           = (Inl (RuntimeError (''Could not read the image: '' @ inputPath)), self, d)"
  using assms by (simp add: AltSobel_getEdges_def OmpSobel_getEdges_def getImage_empty)

text \<open>
  The path \<^verbatim>\<open>nonexistent.jpg\<close>, with nothing on the disk.
\<close>

theorem getEdges_load_failure_witness:
  "AltSobel_getEdges no_image (AltSobel 3) ''nonexistent.jpg'' ''out.jpg'' Map.empty
     = (Inl (RuntimeError ''Could not read the image: nonexistent.jpg''), AltSobel 3, Map.empty)"
  using getEdges_load_failure [of no_image "''nonexistent.jpg''" "AltSobel 3" "''out.jpg''" Map.empty]
  by (simp add: no_image_def Mat_empty_def Mat_rows_def)

text \<open>
  Claim C7. On a uniform image of \<open>h\<close> by \<open>w\<close> pixels of one colour, getEdges of AltSobel
  and of OmpSobel returns the edge map that is zero everywhere (delta is 0, as the
  constructors set it): both gradient fields are zero, since the coefficients of each
  kernel add up to zero and the border is left at zero.
\<close>

theorem flat_field_zero_edges:
  assumes "imread inputPath = new_Mat h w p" and "0 < h" and "0 < w" and "delta self = 0"
  shows "fst (AltSobel_getEdges imread self inputPath outputName d) = Inr (new_Mat h w 0)
       \<and> fst (OmpSobel_getEdges imread self inputPath outputName d) = Inr (new_Mat h w 0)"
proof -
  obtain b g r where p: "p = (b, g, r)"
    by (cases p)
  have "\<not> Mat_empty (imread inputPath)"
    using assms(1-3) by (simp add: Mat_empty_def)
  then have img: "getImage imread inputPath = Inr (new_Mat h w (b, g, r))"
    by (simp add: getImage_nonempty assms(1) p)
  show ?thesis
    using assms(2-4)
    by (simp add: AltSobel_getEdges_def OmpSobel_getEdges_def img Let_def
        OmpSobel_convertToRGB_eq OmpSobel_computeGradientX_eq OmpSobel_computeGradientY_eq
        OmpSobel_combineGradients_eq AltSobel_computeGradientX_def
        AltSobel_computeGradientY_def convertToRGB_uniform
        AltSobel_convertToGrayscale_uniform OmpSobel_convertToGrayscale_uniform
        computeGradient_uniform combineGradients_zero)
qed

text \<open>
  A 4 by 5 image of the colour \<open>(10, 20, 30)\<close>.
\<close>

theorem flat_field_zero_edges_witness:
  "fst (AltSobel_getEdges (\<lambda>p. new_Mat 4 5 (10, 20, 30)) (AltSobel 3) ''in.png'' ''out.png''
      Map.empty) = Inr (new_Mat 4 5 0)
   \<and> fst (OmpSobel_getEdges (\<lambda>p. new_Mat 4 5 (10, 20, 30)) (OmpSobel 3) ''in.png'' ''out.png''
      Map.empty) = Inr (new_Mat 4 5 0)"
proof -
  have "OmpSobel 3 = AltSobel 3"
    by (simp add: AltSobel_def OmpSobel_def)
  moreover have "delta (AltSobel 3) = 0"
    by (simp add: AltSobel_def)
  ultimately show ?thesis
    using flat_field_zero_edges [of "\<lambda>p. new_Mat 4 5 (10, 20, 30)" "''in.png''" 4 5
        "(10, 20, 30)" "AltSobel 3" "''out.png''" Map.empty]
    by simp
qed



text \<open>
  Claim C9. The table sobelY is the table sobelX rotated by 90 degrees (clockwise).
\<close>

theorem sobelY_is_sobelX_rotated: "rotate90 sobelX = sobelY"
  by (simp add: rotate90_def sobelX_def sobelY_def upt_3)

text \<open>
  Claim C10. The constructor argument kernelSize, stored in the field ksize, has no
  influence on getEdges: for any two values the edge map (or the error) and the disk are
  the same, for AltSobel and for OmpSobel.
\<close>

theorem getEdges_ignores_ksize:
  "fst (AltSobel_getEdges imread (AltSobel k1) inputPath outputName d)
     = fst (AltSobel_getEdges imread (AltSobel k2) inputPath outputName d)
   \<and> snd (snd (AltSobel_getEdges imread (AltSobel k1) inputPath outputName d))
     = snd (snd (AltSobel_getEdges imread (AltSobel k2) inputPath outputName d))
   \<and> fst (OmpSobel_getEdges imread (OmpSobel k1) inputPath outputName d)
     = fst (OmpSobel_getEdges imread (OmpSobel k2) inputPath outputName d)
   \<and> snd (snd (OmpSobel_getEdges imread (OmpSobel k1) inputPath outputName d))
     = snd (snd (OmpSobel_getEdges imread (OmpSobel k2) inputPath outputName d))"
  by (simp add: constructors_ksize [of k1] constructors_ksize [of k2]
      AltSobel_getEdges_ksize OmpSobel_getEdges_ksize)

end
